theory Spec2Isabelle
  imports Complex_Main "HOL-Library.Sublist"
begin

section \<open>Feed connection manager: reconnection with backoff\<close>

text \<open>
  The class \<open>WebSocketService\<close> of \<open>services/api/websocketService.ts\<close>. The fields of
  the class are the fields of the record. A socket is known by its ready state only, a
  callback by whether it is set, and the pending timer by the delay it was armed with.
\<close>

datatype Exchange = OKX | Bybit | Deribit

datatype readyState = CONNECTING | OPEN | CLOSED

record WebSocketService =
  socket :: "readyState option"
  reconnectAttempts :: nat
  maxReconnectAttempts :: nat
  reconnectTimeout :: "int option"
  currentExchange :: "Exchange option"
  currentSymbol :: "string option"
  messageCallback :: bool
  errorCallback :: bool

text \<open>The field initialisers of the class.\<close>

definition initial :: WebSocketService where
  "initial = \<lparr>socket = None, reconnectAttempts = 0, maxReconnectAttempts = 5,
     reconnectTimeout = None, currentExchange = None, currentSymbol = None,
     messageCallback = False, errorCallback = False\<rparr>"

definition disconnect :: "WebSocketService \<Rightarrow> WebSocketService" where
  "disconnect s = s\<lparr>socket := None, reconnectTimeout := None, currentExchange := None,
     currentSymbol := None, messageCallback := False, errorCallback := False\<rparr>"

text \<open>
  \<open>connect\<close> up to the creation of the socket: every member of \<open>Exchange\<close> has a
  configuration, and the handlers it installs are the functions \<open>onopen\<close> and
  \<open>onclose\<close> below. \<open>disconnect\<close> closes the socket it finds; in the runs below
  that socket has closed already, and closing it again fires no event.
\<close>

definition connect :: "WebSocketService \<Rightarrow> Exchange \<Rightarrow> string \<Rightarrow> WebSocketService" where
  "connect s exchange symbol =
     (disconnect s)\<lparr>currentExchange := Some exchange, currentSymbol := Some symbol,
        messageCallback := True, errorCallback := True, socket := Some CONNECTING\<rparr>"

definition onopen :: "WebSocketService \<Rightarrow> WebSocketService" where
  "onopen s = s\<lparr>socket := Some OPEN, reconnectAttempts := 0\<rparr>"

text \<open>
  \<open>attemptReconnect\<close> returns the new state and the delay of the timer it armed, or
  \<open>None\<close> when it returned early without arming one.
\<close>

definition attemptReconnect :: "WebSocketService \<Rightarrow> WebSocketService \<times> int option" where
  "attemptReconnect s =
     (if reconnectAttempts s \<ge> maxReconnectAttempts s then (s, None)
      else
        let attempts = reconnectAttempts s + 1;
            delay = min (1000 * 2 ^ attempts) 30000
        in (s\<lparr>reconnectAttempts := attempts, reconnectTimeout := Some delay\<rparr>, Some delay))"

definition onclose :: "WebSocketService \<Rightarrow> WebSocketService \<times> int option" where
  "onclose s = attemptReconnect (s\<lparr>socket := Some CLOSED\<rparr>)"

text \<open>The body of the timer callback of \<open>attemptReconnect\<close>.\<close>

definition timer_fires :: "WebSocketService \<Rightarrow> WebSocketService" where
  "timer_fires s =
     (case (currentExchange s, currentSymbol s) of
        (Some exchange, Some symbol) \<Rightarrow>
          if symbol \<noteq> [] \<and> messageCallback s then connect s exchange symbol else s
      | _ \<Rightarrow> s)"

text \<open>
  \<open>n\<close> consecutive failures: the socket closes without having opened, and when a timer
  was armed it fires and the connection made by it fails in turn. The list holds, for
  each failure, the delay that was scheduled after it.
\<close>

fun consecutive_failures :: "nat \<Rightarrow> WebSocketService \<Rightarrow> int option list" where
  "consecutive_failures 0 s = []"
| "consecutive_failures (Suc n) s =
     (case onclose s of
        (s', None) \<Rightarrow> None # consecutive_failures n s'
      | (s', Some d) \<Rightarrow> Some d # consecutive_failures n (timer_fires s'))"

section \<open>Numbers\<close>

text \<open>
  A JavaScript number is a real, an infinity or NaN. The prices, quantities and
  timestamps of a book and of an order form are reals; every value that the code
  computes by a division is a \<open>jsnum\<close>, so that a division by zero gives what it gives
  in JavaScript (\<open>0/0\<close> is NaN, \<open>x/0\<close> is an infinity of the sign of \<open>x\<close>) and not the
  \<open>0\<close> of HOL. Rounding is not modelled, and there is one zero.
\<close>

datatype jsnum = Fin real | PInf | NInf | NaN

fun jsub :: "jsnum \<Rightarrow> jsnum \<Rightarrow> jsnum" where
  "jsub (Fin a) (Fin b) = Fin (a - b)"
| "jsub NaN y = NaN"
| "jsub x NaN = NaN"
| "jsub PInf PInf = NaN"
| "jsub NInf NInf = NaN"
| "jsub PInf y = PInf"
| "jsub NInf y = NInf"
| "jsub (Fin a) PInf = NInf"
| "jsub (Fin a) NInf = PInf"

fun jmul :: "jsnum \<Rightarrow> jsnum \<Rightarrow> jsnum" where
  "jmul (Fin a) (Fin b) = Fin (a * b)"
| "jmul NaN y = NaN"
| "jmul x NaN = NaN"
| "jmul PInf PInf = PInf"
| "jmul PInf NInf = NInf"
| "jmul NInf PInf = NInf"
| "jmul NInf NInf = PInf"
| "jmul PInf (Fin b) = (if b > 0 then PInf else if b < 0 then NInf else NaN)"
| "jmul NInf (Fin b) = (if b > 0 then NInf else if b < 0 then PInf else NaN)"
| "jmul (Fin a) PInf = (if a > 0 then PInf else if a < 0 then NInf else NaN)"
| "jmul (Fin a) NInf = (if a > 0 then NInf else if a < 0 then PInf else NaN)"

fun jdiv :: "jsnum \<Rightarrow> jsnum \<Rightarrow> jsnum" where
  "jdiv (Fin a) (Fin b) =
     (if b \<noteq> 0 then Fin (a / b)
      else if a > 0 then PInf else if a < 0 then NInf else NaN)"
| "jdiv NaN y = NaN"
| "jdiv x NaN = NaN"
| "jdiv (Fin a) y = Fin 0"
| "jdiv x PInf = NaN"
| "jdiv x NInf = NaN"
| "jdiv PInf (Fin b) = (if b \<ge> 0 then PInf else NInf)"
| "jdiv NInf (Fin b) = (if b \<ge> 0 then NInf else PInf)"

text \<open>\<open>Math.max\<close> and \<open>Math.min\<close>: NaN when an argument is NaN.\<close>

fun jmax :: "jsnum \<Rightarrow> jsnum \<Rightarrow> jsnum" where
  "jmax (Fin a) (Fin b) = Fin (max a b)"
| "jmax NaN y = NaN"
| "jmax x NaN = NaN"
| "jmax PInf y = PInf"
| "jmax x PInf = PInf"
| "jmax NInf y = y"
| "jmax x NInf = x"

fun jmin :: "jsnum \<Rightarrow> jsnum \<Rightarrow> jsnum" where
  "jmin (Fin a) (Fin b) = Fin (min a b)"
| "jmin NaN y = NaN"
| "jmin x NaN = NaN"
| "jmin NInf y = NInf"
| "jmin x NInf = NInf"
| "jmin PInf y = y"
| "jmin x PInf = x"

text \<open>The comparisons \<open><\<close> and \<open>\<le>\<close>: false when an argument is NaN.\<close>

fun jlt :: "jsnum \<Rightarrow> jsnum \<Rightarrow> bool" where
  "jlt (Fin a) (Fin b) = (a < b)"
| "jlt NaN y = False"
| "jlt x NaN = False"
| "jlt x NInf = False"
| "jlt PInf y = False"
| "jlt x PInf = True"
| "jlt NInf y = True"

fun jle :: "jsnum \<Rightarrow> jsnum \<Rightarrow> bool" where
  "jle (Fin a) (Fin b) = (a \<le> b)"
| "jle NaN y = False"
| "jle x NaN = False"
| "jle NInf y = True"
| "jle x PInf = True"
| "jle x NInf = False"
| "jle PInf y = False"

section \<open>Data model\<close>

text \<open>The declarations of \<open>types/orderbook\<close>. An optional field is an \<open>option\<close>.\<close>

datatype OrderType = Market | Limit
datatype OrderSide = Buy | Sell
datatype DelayOption = Delay_immediate | Delay_5s | Delay_10s | Delay_30s

record OrderForm =
  exchange :: Exchange
  symbol :: string
  type :: OrderType
  side :: OrderSide
  price :: "real option"
  quantity :: real
  delay :: DelayOption

record OrderLevel =
  price :: real
  quantity :: real
  total :: "real option"
  percentage :: "jsnum option"

text \<open>
  A book holds its levels by value (\<open>OrderLevel OrderBook\<close>) where the code only reads
  them, and by reference (\<open>ref OrderBook\<close>, with a heap) where it writes to them.
\<close>

record 'l OrderBook =
  bids :: "'l list"
  asks :: "'l list"
  timestamp :: real

record OrderSimulation =
  form :: OrderForm
  fillPercentage :: jsnum
  marketImpact :: jsnum
  slippage :: jsnum
  timeToFill :: "string option"
  active :: bool

datatype error = TypeError | SyntaxError

section \<open>Execution simulator\<close>

text \<open>
  \<open>simulateOrder\<close> of the module \<open>services/orderbookService\<close> (the second module of
  the source file). The loop of the market branch, with its \<open>break\<close>; the state is
  \<open>(remainingQuantity, totalValue, filledLevels)\<close>.
\<close>

fun market_loop :: "OrderLevel list \<Rightarrow> real \<times> real \<times> nat \<Rightarrow> real \<times> real \<times> nat" where
  "market_loop [] (remainingQuantity, totalValue, filledLevels) =
     (remainingQuantity, totalValue, filledLevels)"
| "market_loop (level # levels) (remainingQuantity, totalValue, filledLevels) =
     (if remainingQuantity \<le> 0 then (remainingQuantity, totalValue, filledLevels)
      else
        let fillQuantity = min remainingQuantity (quantity level)
        in market_loop levels
             (remainingQuantity - fillQuantity, totalValue + fillQuantity * price level,
              filledLevels + 1))"

text \<open>The loop of the limit branch; the state is \<open>(remainingQuantity, totalValue)\<close>.\<close>

fun limit_loop :: "OrderLevel list \<Rightarrow> real \<times> real \<Rightarrow> real \<times> real" where
  "limit_loop [] (remainingQuantity, totalValue) = (remainingQuantity, totalValue)"
| "limit_loop (level # levels) (remainingQuantity, totalValue) =
     (if remainingQuantity \<le> 0 then (remainingQuantity, totalValue)
      else
        let fillQuantity = min remainingQuantity (quantity level)
        in limit_loop levels
             (remainingQuantity - fillQuantity, totalValue + fillQuantity * price level))"

text \<open>
  The search for the position in the book: the index of the first level that the order
  price beats, and the initial \<open>0\<close> when there is none.
\<close>

fun find_position :: "OrderSide \<Rightarrow> real \<Rightarrow> OrderLevel list \<Rightarrow> nat \<Rightarrow> nat" where
  "find_position sd orderPrice [] i = 0"
| "find_position sd orderPrice (level # relevantLevels) i =
     (if sd = Buy \<and> orderPrice > price level then i
      else if sd = Sell \<and> orderPrice < price level then i
      else find_position sd orderPrice relevantLevels (i + 1))"

definition seconds :: "DelayOption \<Rightarrow> string" where
  "seconds d = (if d = Delay_5s then ''5'' else if d = Delay_10s then ''10'' else ''30'')"

definition estimateTimeToFill :: "DelayOption \<Rightarrow> jsnum \<Rightarrow> string" where
  "estimateTimeToFill d fillPct =
     (if d = Delay_immediate then
        (if jle (Fin 100) fillPct then ''Immediate'' else ''Partial fill'')
      else if jle (Fin 100) fillPct then ''~'' @ seconds d @ ''s''
      else if jlt (Fin 75) fillPct then ''>'' @ seconds d @ ''s''
      else if jlt (Fin 50) fillPct then ''>>'' @ seconds d @ ''s''
      else if jlt (Fin 0) fillPct then ''>>>'' @ seconds d @ ''s''
      else ''Unlikely to fill'')"

text \<open>\<open>levels[0]\<close> followed by a field access: a TypeError on an empty array.\<close>

definition first_level :: "OrderLevel list \<Rightarrow> error + OrderLevel" where
  "first_level levels = (case levels of [] \<Rightarrow> Inl TypeError | level # _ \<Rightarrow> Inr level)"

definition inactive :: "OrderForm \<Rightarrow> OrderSimulation" where
  "inactive f = \<lparr>form = f, fillPercentage = Fin 0, marketImpact = Fin 0, slippage = Fin 0,
     timeToFill = None, active = False\<rparr>"

definition simulate_market :: "OrderForm \<Rightarrow> OrderLevel OrderBook \<Rightarrow> error + OrderSimulation" where
  "simulate_market f orderBook =
     (let levels = (if side f = Buy then asks orderBook else bids orderBook);
          (remainingQuantity, totalValue, filledLevels) =
             market_loop levels (OrderForm.quantity f, 0, 0);
          fillPercentage =
             jmul (jdiv (Fin (OrderForm.quantity f - remainingQuantity))
                        (Fin (OrderForm.quantity f))) (Fin 100);
          averagePrice =
             jdiv (Fin totalValue) (Fin (OrderForm.quantity f - remainingQuantity))
      in case first_level (if side f = Buy then asks orderBook else bids orderBook) of
           Inl e \<Rightarrow> Inl e
         | Inr best \<Rightarrow>
             let bestPrice = Fin (price best);
                 slip = (if side f = Buy
                         then jmul (jdiv (jsub averagePrice bestPrice) bestPrice) (Fin 100)
                         else jmul (jdiv (jsub bestPrice averagePrice) bestPrice) (Fin 100));
                 impact = jmul (jdiv (Fin (real filledLevels)) (Fin (real (length levels))))
                               (Fin 100)
             in Inr \<lparr>form = f, fillPercentage = fillPercentage, marketImpact = impact,
                      slippage = jmax (Fin 0) slip, timeToFill = Some ''Immediate'',
                      active = True\<rparr>)"

definition simulate_limit :: "OrderForm \<Rightarrow> OrderLevel OrderBook \<Rightarrow> error + OrderSimulation" where
  "simulate_limit f orderBook =
     (let orderPrice = (case OrderForm.price f of None \<Rightarrow> 0 | Some p \<Rightarrow> p);
          levels = (if side f = Buy then asks orderBook else bids orderBook);
          fillableLevels =
             (if side f = Buy then filter (\<lambda>level. price level \<le> orderPrice) levels
              else filter (\<lambda>level. price level \<ge> orderPrice) levels);
          (remainingQuantity, totalValue) =
             limit_loop fillableLevels (OrderForm.quantity f, 0);
          fillPercentage =
             jmul (jdiv (Fin (OrderForm.quantity f - remainingQuantity))
                        (Fin (OrderForm.quantity f))) (Fin 100);
          impact =
             (if jlt fillPercentage (Fin 100) then
                let relevantLevels = (if side f = Buy then bids orderBook else asks orderBook);
                    depth = length relevantLevels;
                    position = find_position (side f) orderPrice relevantLevels 0
                in jmul (jsub (Fin 1) (jdiv (Fin (real position)) (Fin (real depth)))) (Fin 50)
              else jmul (jdiv (Fin (real (length fillableLevels)))
                              (Fin (real (length levels)))) (Fin 75));
          filled = OrderForm.quantity f - remainingQuantity;
          averageFilledPrice = jdiv (Fin totalValue) (Fin (if filled \<noteq> 0 then filled else 1));
          slip = (if side f = Buy
                  then jmul (jdiv (jsub averageFilledPrice (Fin orderPrice)) (Fin orderPrice))
                            (Fin 100)
                  else jmul (jdiv (jsub (Fin orderPrice) averageFilledPrice) (Fin orderPrice))
                            (Fin 100))
      in Inr \<lparr>form = f, fillPercentage = fillPercentage,
               marketImpact = jmin (Fin 100) impact, slippage = jmax (Fin 0) slip,
               timeToFill = Some (estimateTimeToFill (delay f) fillPercentage),
               active = True\<rparr>)"

definition simulateOrder :: "OrderForm \<Rightarrow> OrderLevel OrderBook \<Rightarrow> error + OrderSimulation" where
  "simulateOrder f orderBook =
     (if bids orderBook = [] \<or> asks orderBook = [] then Inr (inactive f)
      else if type f = Market then simulate_market f orderBook
      else simulate_limit f orderBook)"

text \<open>Sample data for the concrete cases.\<close>

definition lvl :: "real \<Rightarrow> real \<Rightarrow> OrderLevel" where
  "lvl p q = \<lparr>price = p, quantity = q, total = None, percentage = None\<rparr>"

definition order :: "OrderType \<Rightarrow> OrderSide \<Rightarrow> real option \<Rightarrow> real \<Rightarrow> OrderForm" where
  "order t sd p q = \<lparr>exchange = OKX, symbol = ''BTC-USDT'', type = t, side = sd,
     price = p, quantity = q, delay = Delay_immediate\<rparr>"

definition book :: "'l list \<Rightarrow> 'l list \<Rightarrow> 'l OrderBook" where
  "book bs as = \<lparr>bids = bs, asks = as, timestamp = 0\<rparr>"

text \<open>
  The market walk in the words of the specification: the quantity taken from each level,
  from the front, up to what remains and until nothing remains, and the value of these
  fills at the prices of their levels.
\<close>

fun spec_fills :: "real \<Rightarrow> OrderLevel list \<Rightarrow> real list" where
  "spec_fills remaining [] = []"
| "spec_fills remaining (level # levels) =
     (if remaining \<le> 0 then []
      else min remaining (quantity level)
           # spec_fills (remaining - min remaining (quantity level)) levels)"

definition spec_value :: "real list \<Rightarrow> OrderLevel list \<Rightarrow> real" where
  "spec_value fills levels = (\<Sum>(x, level) \<leftarrow> zip fills levels. x * price level)"

section \<open>Order book aggregator\<close>

text \<open>
  \<open>processOrderBookData\<close> of the same module assigns to fields of the
  level objects it finds in the arrays of its argument. The level objects live in a
  heap, and an array of levels is a list of references. The spread \<open>[...xs]\<close> copies
  the array and not the objects, so the sorted and sliced lists hold the references
  of the input.
\<close>

type_synonym ref = nat
type_synonym heap = "ref \<Rightarrow> OrderLevel"

text \<open>
  \<open>Array.prototype.sort\<close> is stable, and both comparators are differences of prices,
  which are consistent on real prices: the result is the stable sort by the price, for
  the bids by the negated price.
\<close>

definition sort_bids :: "heap \<Rightarrow> ref list \<Rightarrow> ref list" where
  "sort_bids h rs = sort_key (\<lambda>r. - price (h r)) rs"

definition sort_asks :: "heap \<Rightarrow> ref list \<Rightarrow> ref list" where
  "sort_asks h rs = sort_key (\<lambda>r. price (h r)) rs"

text \<open>The first pair of \<open>forEach\<close> loops; the state is the heap and the running total.\<close>

fun set_totals :: "ref list \<Rightarrow> heap \<times> real \<Rightarrow> heap \<times> real" where
  "set_totals [] (h, runningTotal) = (h, runningTotal)"
| "set_totals (r # rs) (h, runningTotal) =
     (let t = runningTotal + quantity (h r)
      in set_totals rs (h(r := (h r)\<lparr>total := Some t\<rparr>), t))"

text \<open>
  The value of \<open>level.total ? (level.total / maxTotal) * 100 : 0\<close>; an absent total
  and a total of 0 are falsy.
\<close>

definition percentage_of :: "real \<Rightarrow> real option \<Rightarrow> jsnum" where
  "percentage_of maxTotal t =
     (case t of
        None \<Rightarrow> Fin 0
      | Some v \<Rightarrow> if v \<noteq> 0 then jmul (jdiv (Fin v) (Fin maxTotal)) (Fin 100) else Fin 0)"

text \<open>The second pair of \<open>forEach\<close> loops.\<close>

fun set_percentages :: "real \<Rightarrow> ref list \<Rightarrow> heap \<Rightarrow> heap" where
  "set_percentages maxTotal [] h = h"
| "set_percentages maxTotal (r # rs) h =
     set_percentages maxTotal rs
       (h(r := (h r)\<lparr>percentage := Some (percentage_of maxTotal (total (h r)))\<rparr>))"

definition processOrderBookData :: "heap \<Rightarrow> ref OrderBook \<Rightarrow> heap \<times> ref OrderBook" where
  "processOrderBookData h rawOrderBook =
     (let bs = take 15 (sort_bids h (bids rawOrderBook));
          as = take 15 (sort_asks h (asks rawOrderBook));
          (h1, bidTotal) = set_totals bs (h, 0);
          (h2, askTotal) = set_totals as (h1, 0);
          maxTotal = max bidTotal askTotal;
          h3 = set_percentages maxTotal bs h2;
          h4 = set_percentages maxTotal as h3
      in (h4, \<lparr>bids = bs, asks = as, timestamp = timestamp rawOrderBook\<rparr>))"

text \<open>A heap of four levels for the concrete cases: two bids and two asks.\<close>

definition sample_heap :: heap where
  "sample_heap r =
     (if r = 0 then lvl 99 2 else if r = 1 then lvl 98 1
      else if r = 2 then lvl 100 1 else lvl 101 5)"

text \<open>
  The arrays of a book are objects as well, and \<open>sort\<close> sorts an array in place. In the
  store below an array is a list of references at an address, next to the heap of the
  level objects; a book object holds the addresses of its two arrays. The spread
  \<open>[...xs]\<close> allocates a copy of the array, \<open>sort\<close> replaces the content of the array
  it is called on, and \<open>slice\<close> allocates the array it returns.
\<close>

type_synonym addr = nat

record store =
  arrays :: "addr \<Rightarrow> ref list"
  objects :: heap
  fresh :: addr

record OrderBookObject =
  bids_at :: addr
  asks_at :: addr
  timestamp_at :: real

definition spread :: "store \<Rightarrow> addr \<Rightarrow> store \<times> addr" where
  "spread s a =
     (s\<lparr>arrays := (arrays s)(fresh s := arrays s a), fresh := fresh s + 1\<rparr>, fresh s)"

definition sort_array :: "(heap \<Rightarrow> ref list \<Rightarrow> ref list) \<Rightarrow> store \<Rightarrow> addr \<Rightarrow> store" where
  "sort_array srt s a = s\<lparr>arrays := (arrays s)(a := srt (objects s) (arrays s a))\<rparr>"

definition slice_array :: "nat \<Rightarrow> store \<Rightarrow> addr \<Rightarrow> store \<times> addr" where
  "slice_array n s a =
     (s\<lparr>arrays := (arrays s)(fresh s := take n (arrays s a)), fresh := fresh s + 1\<rparr>, fresh s)"

text \<open>
  \<open>processOrderBookData\<close> with its arrays in the store. The function of the same name
  above is this one read through the arrays (lemma \<open>store_refines\<close> below).
\<close>

definition processOrderBookData_store :: "store \<Rightarrow> OrderBookObject \<Rightarrow> store \<times> OrderBookObject" where
  "processOrderBookData_store s rawOrderBook =
     (let (s1, c1) = spread s (bids_at rawOrderBook);
          s2 = sort_array sort_bids s1 c1;
          (s3, bs) = slice_array 15 s2 c1;
          (s4, c2) = spread s3 (asks_at rawOrderBook);
          s5 = sort_array sort_asks s4 c2;
          (s6, as) = slice_array 15 s5 c2;
          (h1, bidTotal) = set_totals (arrays s6 bs) (objects s6, 0);
          (h2, askTotal) = set_totals (arrays s6 as) (h1, 0);
          maxTotal = max bidTotal askTotal;
          h3 = set_percentages maxTotal (arrays s6 bs) h2;
          h4 = set_percentages maxTotal (arrays s6 as) h3
      in (s6\<lparr>objects := h4\<rparr>,
          \<lparr>bids_at = bs, asks_at = as, timestamp_at = timestamp_at rawOrderBook\<rparr>))"

text \<open>
  A store for the concrete cases: the bids array \<open>[1, 0]\<close> at address 0, not in sorted
  order, the asks array \<open>[2]\<close> at address 1, and the levels of the sample heap.
\<close>

definition sample_store :: store where
  "sample_store =
     \<lparr>arrays = (\<lambda>a. if a = 0 then [1, 0] else if a = 1 then [2] else []),
      objects = sample_heap, fresh = 2\<rparr>"

definition sample_book_object :: OrderBookObject where
  "sample_book_object = \<lparr>bids_at = 0, asks_at = 1, timestamp_at = 0\<rparr>"

text \<open>The book that a book object stands for in a store.\<close>

definition read_book :: "store \<Rightarrow> OrderBookObject \<Rightarrow> ref OrderBook" where
  "read_book s ob =
     \<lparr>bids = arrays s (bids_at ob), asks = arrays s (asks_at ob), timestamp = timestamp_at ob\<rparr>"


text \<open>
  Devices of the proofs about the aggregator. \<open>written_total q rs t x\<close> is the last
  total that the first loop, run over \<open>rs\<close> from the running total \<open>t\<close> with the
  quantities \<open>q\<close>, writes to the level \<open>x\<close>, if it writes any; \<open>running\<close> is
  the list of running totals; \<open>annotate\<close> is the four loops on given lists, and
  \<open>final_total\<close> the total of a level after them.
\<close>

fun written_total :: "(ref \<Rightarrow> real) \<Rightarrow> ref list \<Rightarrow> real \<Rightarrow> ref \<Rightarrow> real option" where
  "written_total q [] t x = None"
| "written_total q (r # rs) t x =
     (case written_total q rs (t + q r) x of
        Some v \<Rightarrow> Some v
      | None \<Rightarrow> if x = r then Some (t + q r) else None)"


definition annotate :: "ref list \<Rightarrow> ref list \<Rightarrow> heap \<Rightarrow> heap" where
  "annotate bs as h =
     (let (h1, bidTotal) = set_totals bs (h, 0);
          (h2, askTotal) = set_totals as (h1, 0);
          maxTotal = max bidTotal askTotal;
          h3 = set_percentages maxTotal bs h2
      in set_percentages maxTotal as h3)"

definition final_total :: "(ref \<Rightarrow> real) \<Rightarrow> ref list \<Rightarrow> ref list \<Rightarrow> real option \<Rightarrow> ref \<Rightarrow> real option" where
  "final_total q bs as old x =
     (case written_total q as 0 x of
        Some v \<Rightarrow> Some v
      | None \<Rightarrow> (case written_total q bs 0 x of Some v \<Rightarrow> Some v | None \<Rightarrow> old))"

section \<open>Exchange adapter registry: the message parsers\<close>

text \<open>
  The \<open>parseMessage\<close> functions of \<open>exchangeConfigs\<close> take a value of type
  \<open>unknown\<close>, the result of \<open>JSON.parse\<close> on a frame, and return \<open>null\<close> or an
  object literal. Both are JavaScript values. An object is the list of its own
  properties, looked up by the first match.
\<close>

datatype jsval =
    JUndefined
  | JNull
  | JBool bool
  | JNum jsnum
  | JStr string
  | JArr "jsval list"
  | JObj "(string \<times> jsval) list"

text \<open>Truthiness, as \<open>!v\<close> and \<open>v || w\<close> test it.\<close>

fun truthy :: "jsval \<Rightarrow> bool" where
  "truthy JUndefined = False"
| "truthy JNull = False"
| "truthy (JBool b) = b"
| "truthy (JNum n) = (n \<noteq> Fin 0 \<and> n \<noteq> NaN)"
| "truthy (JStr s) = (s \<noteq> [])"
| "truthy (JArr xs) = True"
| "truthy (JObj kvs) = True"

text \<open>
  \<open>v.k\<close> for the property names the parsers read (\<open>data\<close>, \<open>topic\<close>, \<open>params\<close>,
  \<open>asks\<close>, \<open>bids\<close>, \<open>a\<close>, \<open>b\<close>, \<open>ts\<close>, \<open>timestamp\<close>): a TypeError on \<open>null\<close> and
  \<open>undefined\<close>, the own property of an object, and \<open>undefined\<close> on every other
  value, none of these names being a property of a prototype.
\<close>

fun get_prop :: "jsval \<Rightarrow> string \<Rightarrow> error + jsval" where
  "get_prop JUndefined k = Inl TypeError"
| "get_prop JNull k = Inl TypeError"
| "get_prop (JObj kvs) k = Inr (case map_of kvs k of None \<Rightarrow> JUndefined | Some v \<Rightarrow> v)"
| "get_prop v k = Inr JUndefined"

text \<open>The decimal digits of an index, the property name that \<open>v[i]\<close> reads on an object.\<close>

fun index_name :: "nat \<Rightarrow> string" where
  "index_name n =
     (if n < 10 then [char_of (48 + n)]
      else index_name (n div 10) @ [char_of (48 + n mod 10)])"

text \<open>
  \<open>v[i]\<close>: a TypeError on \<open>null\<close> and \<open>undefined\<close>, the element of an array, the
  character of a string, the property of an object, \<open>undefined\<close> when there is none.
\<close>

fun get_index :: "jsval \<Rightarrow> nat \<Rightarrow> error + jsval" where
  "get_index JUndefined i = Inl TypeError"
| "get_index JNull i = Inl TypeError"
| "get_index (JArr xs) i = Inr (if i < length xs then xs ! i else JUndefined)"
| "get_index (JStr s) i = Inr (if i < length s then JStr [s ! i] else JUndefined)"
| "get_index (JObj kvs) i =
     Inr (case map_of kvs (index_name i) of None \<Rightarrow> JUndefined | Some v \<Rightarrow> v)"
| "get_index v i = Inr JUndefined"

text \<open>
  \<open>k in v\<close> for the names \<open>asks\<close>, \<open>bids\<close>, \<open>a\<close> and \<open>b\<close>: a TypeError when \<open>v\<close> is
  not an object, false on an array.
\<close>

fun js_in :: "string \<Rightarrow> jsval \<Rightarrow> error + bool" where
  "js_in k (JObj kvs) = Inr (k \<in> fst ` set kvs)"
| "js_in k (JArr xs) = Inr False"
| "js_in k v = Inl TypeError"

fun isArray :: "jsval \<Rightarrow> bool" where
  "isArray (JArr xs) = True"
| "isArray v = False"

text \<open>Sequencing of computations that may throw, and \<open>try { ... } catch { return null }\<close>.\<close>

definition and_then :: "error + 'a \<Rightarrow> ('a \<Rightarrow> error + 'b) \<Rightarrow> error + 'b" where
  "and_then m f = (case m of Inl e \<Rightarrow> Inl e | Inr v \<Rightarrow> f v)"

definition catch_null :: "error + jsval \<Rightarrow> error + jsval" where
  "catch_null m = (case m of Inl e \<Rightarrow> Inr JNull | Inr v \<Rightarrow> Inr v)"

fun map_throwing :: "('a \<Rightarrow> error + 'b) \<Rightarrow> 'a list \<Rightarrow> error + 'b list" where
  "map_throwing f [] = Inr []"
| "map_throwing f (x # xs) =
     and_then (f x) (\<lambda>y. and_then (map_throwing f xs) (\<lambda>ys. Inr (y # ys)))"

text \<open>
  \<open>v.map(f)\<close>: the mapped array when \<open>v\<close> is an array; on any other value \<open>v.map\<close> is
  not a function (a JSON value holds no function), a TypeError.
\<close>

fun js_map :: "(jsval \<Rightarrow> error + jsval) \<Rightarrow> jsval \<Rightarrow> error + jsval" where
  "js_map f (JArr xs) = and_then (map_throwing f xs) (\<lambda>ys. Inr (JArr ys))"
| "js_map f v = Inl TypeError"

text \<open>\<open>v.slice(0, n)\<close>: arrays and strings have the method.\<close>

fun js_slice :: "nat \<Rightarrow> jsval \<Rightarrow> error + jsval" where
  "js_slice n (JArr xs) = Inr (JArr (take n xs))"
| "js_slice n (JStr s) = Inr (JStr (take n s))"
| "js_slice n v = Inl TypeError"

text \<open>\<open>s.indexOf(pat) !== -1\<close>.\<close>

fun contains :: "string \<Rightarrow> string \<Rightarrow> bool" where
  "contains pat [] = (pat = [])"
| "contains pat (c # cs) = (prefix pat (c # cs) \<or> contains pat cs)"

text \<open>
  The parsers. \<open>JSON.parse\<close> and \<open>parseFloat\<close> are parameters (\<open>jp\<close>, which may
  throw, and \<open>pf\<close>, which returns a number, NaN when the text is not one), and so is
  the wall-clock time \<open>now\<close> that \<open>new Date().getTime()\<close> returns. The first property
  access of each parser stands before its \<open>try\<close>.
\<close>

definition level_of_strings :: "(jsval \<Rightarrow> jsnum) \<Rightarrow> jsval \<Rightarrow> error + jsval" where
  "level_of_strings pf entry =
     and_then (get_index entry 0) (\<lambda>e0.
     and_then (get_index entry 1) (\<lambda>e1.
       Inr (JObj [(''price'', JNum (pf e0)), (''quantity'', JNum (pf e1))])))"

definition level_of_numbers :: "jsval \<Rightarrow> error + jsval" where
  "level_of_numbers entry =
     and_then (get_index entry 0) (\<lambda>e0.
     and_then (get_index entry 1) (\<lambda>e1.
       Inr (JObj [(''price'', e0), (''quantity'', e1)])))"

definition parseMessage_OKX ::
  "(string \<Rightarrow> error + jsval) \<Rightarrow> (jsval \<Rightarrow> jsnum) \<Rightarrow> real \<Rightarrow> jsval \<Rightarrow> error + jsval" where
  "parseMessage_OKX jp pf now message =
     and_then (get_prop message ''data'') (\<lambda>msg_data.
       if \<not> truthy msg_data then Inr JNull
       else catch_null
         (and_then (case msg_data of JStr s \<Rightarrow> jp s | _ \<Rightarrow> Inr msg_data) (\<lambda>data.
            if \<not> isArray data then Inr JNull
            else and_then (get_index data 0) (\<lambda>d0.
              if \<not> truthy d0 then Inr JNull
              else and_then (js_in ''asks'' d0) (\<lambda>has_asks.
                if \<not> has_asks then Inr JNull
                else and_then (js_in ''bids'' d0) (\<lambda>has_bids.
                  if \<not> has_bids then Inr JNull
                  else
                    and_then (get_prop d0 ''bids'') (\<lambda>bs.
                    and_then (js_map (level_of_strings pf) bs) (\<lambda>bids'.
                    and_then (get_prop d0 ''asks'') (\<lambda>as.
                    and_then (js_map (level_of_strings pf) as) (\<lambda>asks'.
                      Inr (JObj [(''bids'', bids'), (''asks'', asks'),
                                 (''timestamp'', JNum (Fin now))])))))))))))"

definition parseMessage_Bybit ::
  "(string \<Rightarrow> error + jsval) \<Rightarrow> (jsval \<Rightarrow> jsnum) \<Rightarrow> real \<Rightarrow> jsval \<Rightarrow> error + jsval" where
  "parseMessage_Bybit jp pf now message =
     and_then (get_prop message ''data'') (\<lambda>msg_data.
       if \<not> truthy msg_data then Inr JNull
       else and_then (get_prop message ''topic'') (\<lambda>topic.
         if (case topic of JStr s \<Rightarrow> \<not> contains ''orderbook'' s | _ \<Rightarrow> True) then Inr JNull
         else catch_null
           (and_then (case msg_data of JStr s \<Rightarrow> jp s | _ \<Rightarrow> Inr msg_data) (\<lambda>data.
              if \<not> truthy data then Inr JNull
              else and_then (js_in ''a'' data) (\<lambda>has_a.
                if \<not> has_a then Inr JNull
                else and_then (js_in ''b'' data) (\<lambda>has_b.
                  if \<not> has_b then Inr JNull
                  else
                    and_then (get_prop data ''b'') (\<lambda>bs.
                    and_then (js_slice 50 bs) (\<lambda>bs50.
                    and_then (js_map (level_of_strings pf) bs50) (\<lambda>bids'.
                    and_then (get_prop data ''a'') (\<lambda>as.
                    and_then (js_slice 50 as) (\<lambda>as50.
                    and_then (js_map (level_of_strings pf) as50) (\<lambda>asks'.
                    and_then (get_prop data ''ts'') (\<lambda>ts.
                      Inr (JObj [(''bids'', bids'), (''asks'', asks'),
                                 (''timestamp'',
                                  if truthy ts then ts else JNum (Fin now))]))))))))))))))"

definition parseMessage_Deribit :: "real \<Rightarrow> jsval \<Rightarrow> error + jsval" where
  "parseMessage_Deribit now message =
     and_then (get_prop message ''params'') (\<lambda>params.
     and_then (if params = JUndefined \<or> params = JNull then Inr JUndefined
               else get_prop params ''data'') (\<lambda>data.
       if \<not> truthy data then Inr JNull
       else catch_null
         (and_then (get_prop data ''bids'') (\<lambda>bs.
          and_then (js_map level_of_numbers bs) (\<lambda>bids'.
          and_then (get_prop data ''asks'') (\<lambda>as.
          and_then (js_map level_of_numbers as) (\<lambda>asks'.
          and_then (get_prop data ''timestamp'') (\<lambda>ts.
            Inr (JObj [(''bids'', bids'), (''asks'', asks'),
                       (''timestamp'', if truthy ts then ts else JNum (Fin now))])))))))))"

definition parseMessage ::
  "Exchange \<Rightarrow> (string \<Rightarrow> error + jsval) \<Rightarrow> (jsval \<Rightarrow> jsnum) \<Rightarrow> real \<Rightarrow> jsval \<Rightarrow> error + jsval" where
  "parseMessage ex jp pf now message =
     (case ex of
        OKX \<Rightarrow> parseMessage_OKX jp pf now message
      | Bybit \<Rightarrow> parseMessage_Bybit jp pf now message
      | Deribit \<Rightarrow> parseMessage_Deribit now message)"






definition okx_with_ts :: jsval where
  "okx_with_ts = JObj [(''data'',
     JArr [JObj [(''asks'', JArr []), (''bids'', JArr []),
                 (''ts'', JStr ''1597026383085'')]])]"















definition bybit_with_ts :: jsval where
  "bybit_with_ts = JObj [(''topic'', JStr ''orderbook.50.BTCUSDT''),
     (''data'', JObj [(''a'', JArr []), (''b'', JArr []), (''ts'', JNum (Fin 1597026383085))])]"

definition deribit_with_ts :: jsval where
  "deribit_with_ts = JObj [(''params'',
     JObj [(''data'', JObj [(''bids'', JArr []), (''asks'', JArr []),
                           (''timestamp'', JNum (Fin 1597026383085))])])]"




section \<open>Properties of the reconnection policy\<close>

lemma exhausted_schedules_nothing:
  "reconnectAttempts s \<ge> maxReconnectAttempts s \<Longrightarrow>
   consecutive_failures n s = replicate n None"
  by (induction n arbitrary: s) (simp_all add: onclose_def attemptReconnect_def)

text \<open>
  C5. From a fresh service that has just connected to a target, the delays scheduled
  after five consecutive failures are 2000, 4000, 8000, 16000 and 30000 milliseconds
  (the counter is incremented before the delay is computed), and no failure after the
  fifth schedules another attempt.
\<close>

theorem reconnect_delays:
  "consecutive_failures 5 (connect initial ex (c # cs)) =
     [Some 2000, Some 4000, Some 8000, Some 16000, Some 30000]
   \<and> drop 5 (consecutive_failures (5 + n) (connect initial ex (c # cs))) =
       replicate n None"
proof -
  let ?s = "connect initial ex (c # cs)"
  have five: "5 + n = Suc (Suc (Suc (Suc (Suc n))))" by simp
  have run: "\<exists>t. reconnectAttempts t \<ge> maxReconnectAttempts t \<and>
      consecutive_failures (5 + n) ?s =
        [Some 2000, Some 4000, Some 8000, Some 16000, Some 30000] @ consecutive_failures n t"
    unfolding five
    apply (simp add: onclose_def attemptReconnect_def timer_fires_def connect_def
        disconnect_def initial_def Let_def)
    apply (rule exI, rule conjI)
     prefer 2
     apply (rule refl)
    apply simp
    done
  then obtain t where t: "reconnectAttempts t \<ge> maxReconnectAttempts t"
    and split: "consecutive_failures (5 + n) ?s =
        [Some 2000, Some 4000, Some 8000, Some 16000, Some 30000] @ consecutive_failures n t"
    by blast
  have first: "consecutive_failures 5 ?s =
      [Some 2000, Some 4000, Some 8000, Some 16000, Some 30000]"
    by (simp add: eval_nat_numeral onclose_def attemptReconnect_def timer_fires_def
        connect_def disconnect_def initial_def Let_def)
  have "drop 5 (consecutive_failures (5 + n) ?s) = consecutive_failures n t"
    by (simp add: split)
  with first show ?thesis
    by (simp add: exhausted_schedules_nothing [OF t])
qed

section \<open>Properties of the execution simulator\<close>

lemma first_level_nonempty: "levels \<noteq> [] \<Longrightarrow> first_level levels = Inr (hd levels)"
  by (cases levels) (simp_all add: first_level_def)

lemma simulate_market_returns:
  assumes "(if side f = Buy then asks b else bids b) \<noteq> []"
  shows "\<exists>r. simulate_market f b = Inr r \<and> active r"
  using first_level_nonempty [OF assms]
  by (simp add: simulate_market_def Let_def split: prod.splits)

lemma simulate_limit_returns: "\<exists>r. simulate_limit f b = Inr r \<and> active r"
  by (simp add: simulate_limit_def Let_def split: prod.splits)

text \<open>
  C3. When the bid side or the ask side of the book is empty, \<open>simulateOrder\<close> returns
  the inactive result with all three percentages zero; and on every form and every
  book it returns a result, which is that inactive result or an active one: the only
  operation of the function that can raise, reading the first level of the consumed
  side, is never reached on an empty side.
\<close>

theorem simulate_fails_soft:
  "(bids b = [] \<or> asks b = [] \<longrightarrow> simulateOrder f b = Inr (inactive f)) \<and>
   (\<exists>r. simulateOrder f b = Inr r \<and> (r = inactive f \<or> active r))"
proof (cases "bids b = [] \<or> asks b = []")
  case True
  then show ?thesis by (simp add: simulateOrder_def)
next
  case False
  then have "(if side f = Buy then asks b else bids b) \<noteq> []" by simp
  from simulate_market_returns [OF this] simulate_limit_returns [of f b] False
  show ?thesis by (auto simp: simulateOrder_def)
qed

theorem simulate_fails_soft_witness:
  "asks (book [lvl 99 1] []) = [] \<and>
   simulateOrder (order Limit Buy (Some 100) 1) (book [lvl 99 1] []) =
     Inr (inactive (order Limit Buy (Some 100) 1))"
  using simulate_fails_soft [of "book [lvl 99 1] []" "order Limit Buy (Some 100) 1"]
  by (simp add: book_def)

lemma market_loop_fills:
  "market_loop levels (r, tv, n) =
     (r - sum_list (spec_fills r levels),
      tv + spec_value (spec_fills r levels) levels,
      n + length (spec_fills r levels))"
  by (induction levels arbitrary: r tv n) (simp_all add: spec_value_def Let_def)

text \<open>
  Against levels of non-negative quantities the walk fills the order quantity or the
  whole side, whichever is less.
\<close>

lemma fills_total:
  assumes "\<forall>l \<in> set levels. 0 \<le> quantity l" and "0 \<le> r"
  shows "sum_list (spec_fills r levels) = min r (sum_list (map quantity levels))"
  using assms
proof (induction levels arbitrary: r)
  case Nil
  then show ?case by simp
next
  case (Cons l levels)
  let ?x = "min r (quantity l)"
  from Cons.prems have ql: "0 \<le> quantity l" and rest: "\<forall>l \<in> set levels. 0 \<le> quantity l"
    by simp_all
  have s: "0 \<le> sum_list (map quantity levels)"
    using rest by (intro sum_list_nonneg) auto
  show ?case
  proof (cases "r \<le> 0")
    case True
    with Cons.prems(2) have "r = 0" by simp
    with ql s show ?thesis by simp
  next
    case False
    then have "0 \<le> r - ?x" by simp
    from Cons.IH [OF rest this]
    have "sum_list (spec_fills (r - ?x) levels) = min (r - ?x) (sum_list (map quantity levels))" .
    with False ql s show ?thesis by (simp add: min_def)
  qed
qed

text \<open>
  C1, as amended. For every book with both sides non-empty and every market order with a
  positive quantity, \<open>simulateOrder\<close> returns an active result whose fill percentage is
  the quantity filled by the walk over the consumed side (asks for Buy, bids for Sell)
  divided by the order quantity, times 100; and when the walk fills a quantity other
  than 0 and the price of the first level of that side is not 0, its slippage is the
  directional distance of the volume-weighted average fill price from that price,
  relative to that price, times 100, floored at 0. The claim as stated asks only for
  the consumed side to be non-empty: the code returns the inactive result when the
  other side is empty. What the slippage is when nothing is filled, or when that price
  is 0, is left out here.
\<close>

theorem market_order_fill_and_slippage:
  assumes "bids b \<noteq> []" and "asks b \<noteq> []" and "type f = Market"
    and "OrderForm.quantity f > 0"
  shows "let levels = (if side f = Buy then asks b else bids b);
             fills = spec_fills (OrderForm.quantity f) levels;
             filled = sum_list fills;
             averagePrice = spec_value fills levels / filled;
             bestPrice = price (hd levels)
         in \<exists>r. simulateOrder f b = Inr r \<and> active r \<and>
              fillPercentage r = Fin (filled / OrderForm.quantity f * 100) \<and>
              (filled \<noteq> 0 \<and> bestPrice \<noteq> 0 \<longrightarrow>
                 slippage r =
                   Fin (max 0 (if side f = Buy
                               then (averagePrice - bestPrice) / bestPrice * 100
                               else (bestPrice - averagePrice) / bestPrice * 100)))"
proof -
  let ?levels = "if side f = Buy then asks b else bids b"
  have ne: "?levels \<noteq> []" using assms by simp
  show ?thesis
    using assms first_level_nonempty [OF ne]
    by (simp add: simulateOrder_def simulate_market_def market_loop_fills Let_def)
qed

text \<open>
  The example of the claim, with a bid side: a market Buy of 2 against asks
  \<open>[{100, 1}, {101, 2}]\<close> fills 100 percent with a slippage of 0.5 percent.
\<close>

theorem market_order_fill_and_slippage_witness:
  "bids (book [lvl 99 1] [lvl 100 1, lvl 101 2]) \<noteq> [] \<and>
   asks (book [lvl 99 1] [lvl 100 1, lvl 101 2]) \<noteq> [] \<and>
   type (order Market Buy None 2) = Market \<and>
   OrderForm.quantity (order Market Buy None 2) > 0 \<and>
   (\<exists>r. simulateOrder (order Market Buy None 2) (book [lvl 99 1] [lvl 100 1, lvl 101 2]) = Inr r
        \<and> active r \<and> fillPercentage r = Fin 100 \<and> slippage r = Fin (1 / 2))"
  using market_order_fill_and_slippage
          [of "book [lvl 99 1] [lvl 100 1, lvl 101 2]" "order Market Buy None 2"]
  by (simp add: order_def book_def lvl_def spec_value_def Let_def)

text \<open>
  The same order against the same asks and no bids: the consumed side is non-empty and
  the result is the inactive one, with a fill percentage of 0.
\<close>

theorem market_order_other_side_empty:
  "asks (book [] [lvl 100 1, lvl 101 2]) \<noteq> [] \<and>
   OrderForm.quantity (order Market Buy None 2) > 0 \<and>
   simulateOrder (order Market Buy None 2) (book [] [lvl 100 1, lvl 101 2]) =
     Inr \<lparr>form = order Market Buy None 2, fillPercentage = Fin 0, marketImpact = Fin 0,
          slippage = Fin 0, timeToFill = None, active = False\<rparr>"
  by (simp add: simulateOrder_def inactive_def book_def order_def)

text \<open>
  C6. The percentages of a result are meant to lie in their ranges, the slippage at or
  above 0. A market Buy of 1 against a single ask of quantity 0 fills nothing: the
  average price is \<open>0/0\<close>, and the slippage returned is NaN, which is not at or above 0.
  The limit branch guards the same division (\<open>|| 1\<close>); the market branch does not.
\<close>

theorem market_order_nothing_filled:
  "simulateOrder (order Market Buy None 1) (book [lvl 99 1] [lvl 100 0]) =
     Inr \<lparr>form = order Market Buy None 1, fillPercentage = Fin 0, marketImpact = Fin 100,
          slippage = NaN, timeToFill = Some ''Immediate'', active = True\<rparr>"
  by (simp add: simulateOrder_def simulate_market_def first_level_def book_def order_def
      lvl_def Let_def)

text \<open>
  C10. A limit order is meant to have a slippage of exactly 0. A limit Sell at 101 of
  quantity 1 against a best bid of 100 fills nothing: the average filled price is
  \<open>0/1\<close>, and the slippage returned is 100. The Buy direction returns 0 in the same
  situation.
\<close>

theorem limit_sell_nothing_filled:
  "simulateOrder (order Limit Sell (Some 101) 1) (book [lvl 100 1] [lvl 102 1]) =
     Inr \<lparr>form = order Limit Sell (Some 101) 1, fillPercentage = Fin 0,
          marketImpact = Fin 50, slippage = Fin 100, timeToFill = Some ''Partial fill'',
          active = True\<rparr>"
  by (simp add: simulateOrder_def simulate_limit_def estimateTimeToFill_def book_def
      order_def lvl_def Let_def)

text \<open>
  The extent of the two defects. The loops of both branches are the walk of the
  specification, so the bounds below are bounds on the code.
\<close>

lemma limit_loop_fills:
  "limit_loop levels (r, tv) =
     (r - sum_list (spec_fills r levels), tv + spec_value (spec_fills r levels) levels)"
  by (induction levels arbitrary: r tv) (simp_all add: spec_value_def Let_def)

lemma fills_length: "length (spec_fills r levels) \<le> length levels"
  by (induction levels arbitrary: r) simp_all

lemma fills_sum:
  assumes "\<forall>l \<in> set levels. 0 \<le> quantity l" and "0 \<le> r"
  shows "0 \<le> sum_list (spec_fills r levels) \<and> sum_list (spec_fills r levels) \<le> r"
  using assms
proof (induction levels arbitrary: r)
  case Nil
  then show ?case by simp
next
  case (Cons l levels)
  let ?x = "min r (quantity l)"
  from Cons.prems have x: "0 \<le> ?x" "?x \<le> r" by simp_all
  then have "0 \<le> r - ?x" by simp
  with Cons.IH [of "r - ?x"] Cons.prems(1)
  have "0 \<le> sum_list (spec_fills (r - ?x) levels) \<and> sum_list (spec_fills (r - ?x) levels) \<le> r - ?x"
    by simp
  with x show ?case by simp
qed

lemma fills_value_le:
  assumes "\<forall>l \<in> set levels. 0 \<le> quantity l \<and> price l \<le> p" and "0 \<le> r"
  shows "spec_value (spec_fills r levels) levels \<le> p * sum_list (spec_fills r levels)"
  using assms
proof (induction levels arbitrary: r)
  case Nil
  then show ?case by (simp add: spec_value_def)
next
  case (Cons l levels)
  let ?x = "min r (quantity l)"
  from Cons.prems have x: "0 \<le> ?x" "?x \<le> r" and pl: "price l \<le> p" by simp_all
  then have "0 \<le> r - ?x" by simp
  with Cons.IH [of "r - ?x"] Cons.prems(1)
  have ih: "spec_value (spec_fills (r - ?x) levels) levels
      \<le> p * sum_list (spec_fills (r - ?x) levels)"
    by simp
  from x(1) pl have "?x * price l \<le> ?x * p" by (rule mult_left_mono [rotated])
  with ih show ?case
    by (simp add: spec_value_def algebra_simps)
qed

lemma fills_value_ge:
  assumes "\<forall>l \<in> set levels. 0 \<le> quantity l \<and> p \<le> price l" and "0 \<le> r"
  shows "p * sum_list (spec_fills r levels) \<le> spec_value (spec_fills r levels) levels"
  using assms
proof (induction levels arbitrary: r)
  case Nil
  then show ?case by (simp add: spec_value_def)
next
  case (Cons l levels)
  let ?x = "min r (quantity l)"
  from Cons.prems have x: "0 \<le> ?x" "?x \<le> r" and pl: "p \<le> price l" by simp_all
  then have "0 \<le> r - ?x" by simp
  with Cons.IH [of "r - ?x"] Cons.prems(1)
  have ih: "p * sum_list (spec_fills (r - ?x) levels)
      \<le> spec_value (spec_fills (r - ?x) levels) levels"
    by simp
  from x(1) pl have "?x * p \<le> ?x * price l" by (rule mult_left_mono [rotated])
  with ih show ?case
    by (simp add: spec_value_def algebra_simps)
qed

lemma find_position_range:
  "find_position sd p levels i = 0 \<or>
   (i \<le> find_position sd p levels i \<and> find_position sd p levels i < i + length levels)"
proof (induction levels arbitrary: i)
  case Nil
  show ?case by simp
next
  case (Cons l levels)
  from Cons.IH [of "Suc i"] show ?case by auto
qed

lemma find_position_less:
  "levels \<noteq> [] \<Longrightarrow> find_position sd p levels 0 < length levels"
  using find_position_range [of sd p levels 0] by auto

lemma limit_slippage:
  "\<exists>r. simulate_limit f b = Inr r \<and>
     slippage r =
       (let p = (case OrderForm.price f of None \<Rightarrow> 0 | Some p \<Rightarrow> p);
            levels = (if side f = Buy then asks b else bids b);
            fillable = (if side f = Buy then filter (\<lambda>l. price l \<le> p) levels
                        else filter (\<lambda>l. p \<le> price l) levels);
            fills = spec_fills (OrderForm.quantity f) fillable;
            filled = sum_list fills;
            average = jdiv (Fin (spec_value fills fillable))
                           (Fin (if filled \<noteq> 0 then filled else 1))
        in jmax (Fin 0)
             (if side f = Buy then jmul (jdiv (jsub average (Fin p)) (Fin p)) (Fin 100)
              else jmul (jdiv (jsub (Fin p) average) (Fin p)) (Fin 100)))"
  by (simp add: simulate_limit_def limit_loop_fills Let_def
      del: jdiv.simps jmul.simps jsub.simps jmax.simps jmin.simps jlt.simps)

lemma buy_slip_zero:
  assumes "0 < d" and "0 < p" and "tv \<le> p * d"
  shows "jmax (Fin 0) (jmul (jdiv (jsub (jdiv (Fin tv) (Fin d)) (Fin p)) (Fin p)) (Fin 100)) = Fin 0"
proof -
  from assms have "tv / d \<le> p" by (simp add: pos_divide_le_eq)
  then have "tv / d - p \<le> 0" by simp
  with assms(2) have "(tv / d - p) / p \<le> 0" by (simp add: divide_le_0_iff)
  then have "(tv / d - p) / p * 100 \<le> 0" by (rule mult_nonpos_nonneg) simp
  then have "max 0 ((tv / d - p) / p * 100) = 0" by simp
  with assms(1,2) show ?thesis by simp
qed

lemma sell_slip_zero:
  assumes "0 < d" and "0 < p" and "p * d \<le> tv"
  shows "jmax (Fin 0) (jmul (jdiv (jsub (Fin p) (jdiv (Fin tv) (Fin d))) (Fin p)) (Fin 100)) = Fin 0"
proof -
  from assms have "p \<le> tv / d" by (simp add: pos_le_divide_eq)
  then have "p - tv / d \<le> 0" by simp
  with assms(2) have "(p - tv / d) / p \<le> 0" by (simp add: divide_le_0_iff)
  then have "(p - tv / d) / p * 100 \<le> 0" by (rule mult_nonpos_nonneg) simp
  then have "max 0 ((p - tv / d) / p * 100) = 0" by simp
  with assms(1,2) show ?thesis by simp
qed

text \<open>
  Apart from a Sell that fills nothing, a limit order with a positive price and
  quantity, against levels of non-negative quantities, has a slippage of exactly 0.
\<close>

lemma limit_order_slippage_zero:
  assumes lim: "type f = Limit" and pr: "OrderForm.price f = Some p" and p: "0 < p"
    and q: "0 < OrderForm.quantity f"
    and nn: "\<forall>l \<in> set (bids b @ asks b). 0 \<le> quantity l"
    and fill: "side f = Buy \<or>
      0 < sum_list (spec_fills (OrderForm.quantity f) (filter (\<lambda>l. p \<le> price l) (bids b)))"
  shows "\<exists>r. simulateOrder f b = Inr r \<and> slippage r = Fin 0"
proof (cases "bids b = [] \<or> asks b = []")
  case True
  then show ?thesis by (simp add: simulateOrder_def inactive_def)
next
  case False
  from limit_slippage [of f b] obtain r where r: "simulate_limit f b = Inr r"
    and s: "slippage r =
       (let p = (case OrderForm.price f of None \<Rightarrow> 0 | Some p \<Rightarrow> p);
            levels = (if side f = Buy then asks b else bids b);
            fillable = (if side f = Buy then filter (\<lambda>l. price l \<le> p) levels
                        else filter (\<lambda>l. p \<le> price l) levels);
            fills = spec_fills (OrderForm.quantity f) fillable;
            filled = sum_list fills;
            average = jdiv (Fin (spec_value fills fillable))
                           (Fin (if filled \<noteq> 0 then filled else 1))
        in jmax (Fin 0)
             (if side f = Buy then jmul (jdiv (jsub average (Fin p)) (Fin p)) (Fin 100)
              else jmul (jdiv (jsub (Fin p) average) (Fin p)) (Fin 100)))"
    by blast
  have sim: "simulateOrder f b = Inr r"
    using False lim r by (simp add: simulateOrder_def)
  have "slippage r = Fin 0"
  proof (cases "side f = Buy")
    case True
    let ?fl = "filter (\<lambda>l. price l \<le> p) (asks b)"
    let ?fs = "spec_fills (OrderForm.quantity f) ?fl"
    let ?d = "if sum_list ?fs \<noteq> 0 then sum_list ?fs else 1"
    have lv: "\<forall>l \<in> set ?fl. 0 \<le> quantity l \<and> price l \<le> p"
      using nn by simp
    then have lq: "\<forall>l \<in> set ?fl. 0 \<le> quantity l" by simp
    from fills_value_le [OF lv] q have v: "spec_value ?fs ?fl \<le> p * sum_list ?fs"
      by simp
    from fills_sum [OF lq] q have f0: "0 \<le> sum_list ?fs" by simp
    have d: "0 < ?d" using f0 by simp
    have le: "spec_value ?fs ?fl \<le> p * ?d"
    proof (cases "sum_list ?fs = 0")
      case True
      with v have "spec_value ?fs ?fl \<le> 0" by simp
      with p True show ?thesis by simp
    next
      case False
      with v show ?thesis by simp
    qed
    show ?thesis
      unfolding s Let_def
      by (simp only: True pr option.case simp_thms if_True buy_slip_zero [OF d p le])
  next
    case False
    let ?fl = "filter (\<lambda>l. p \<le> price l) (bids b)"
    let ?fs = "spec_fills (OrderForm.quantity f) ?fl"
    let ?d = "if sum_list ?fs \<noteq> 0 then sum_list ?fs else 1"
    from False fill have f0: "0 < sum_list ?fs" by simp
    then have d: "0 < ?d" by simp
    have lv: "\<forall>l \<in> set ?fl. 0 \<le> quantity l \<and> p \<le> price l"
      using nn by simp
    from fills_value_ge [OF lv] q have "p * sum_list ?fs \<le> spec_value ?fs ?fl"
      by simp
    with f0 have ge: "p * ?d \<le> spec_value ?fs ?fl" by simp
    show ?thesis
      unfolding s Let_def
      by (simp only: False pr option.case simp_thms if_False sell_slip_zero [OF d p ge])
  qed
  with sim show ?thesis by blast
qed

lemmas jsnum_ops = jdiv.simps jmul.simps jsub.simps jmax.simps jmin.simps jlt.simps jle.simps

lemma ratio_range:
  assumes "0 < q" and "0 \<le> x" and "x \<le> q" and "0 \<le> k"
  shows "jmul (jdiv (Fin x) (Fin q)) (Fin k) = Fin (x / q * k) \<and> 0 \<le> x / q * k \<and> x / q * k \<le> k"
proof -
  from assms have lo: "0 \<le> x / q" by simp
  from assms have "x / q \<le> 1" by simp
  then have "x / q * k \<le> 1 * k" using assms(4) by (rule mult_right_mono)
  then have hi: "x / q * k \<le> k" by simp
  from lo assms(4) have "0 \<le> x / q * k" by (rule mult_nonneg_nonneg)
  with hi assms(1) show ?thesis by simp
qed

lemma slip_nonneg:
  assumes "d \<noteq> 0" and "p \<noteq> 0"
  shows "\<exists>sl. jmax (Fin 0) (jmul (jdiv (jsub (jdiv (Fin tv) (Fin d)) (Fin p)) (Fin p)) (Fin 100)) = Fin sl \<and> 0 \<le> sl"
    and "\<exists>sl. jmax (Fin 0) (jmul (jdiv (jsub (Fin p) (jdiv (Fin tv) (Fin d))) (Fin p)) (Fin 100)) = Fin sl \<and> 0 \<le> sl"
  using assms by simp_all

lemma position_impact_range:
  assumes "pos < depth"
  shows "\<exists>mi. jmin (Fin 100) (jmul (jsub (Fin 1) (jdiv (Fin (real pos)) (Fin (real depth)))) (Fin 50)) = Fin mi
           \<and> 0 \<le> mi \<and> mi \<le> 100"
proof -
  from assms have d: "0 < real depth" by simp
  from assms have "real pos / real depth \<le> 1" by simp
  then have "0 \<le> 1 - real pos / real depth" by simp
  then have "0 \<le> (1 - real pos / real depth) * 50" by (rule mult_nonneg_nonneg) simp
  then have "0 \<le> min 100 ((1 - real pos / real depth) * 50)" by simp
  moreover have "min 100 ((1 - real pos / real depth) * 50) \<le> 100" by simp
  moreover have "jmin (Fin 100) (jmul (jsub (Fin 1) (jdiv (Fin (real pos)) (Fin (real depth)))) (Fin 50))
      = Fin (min 100 ((1 - real pos / real depth) * 50))"
    using d by simp
  ultimately show ?thesis by blast
qed

lemma count_impact_range:
  assumes "n \<le> len" and "0 < len"
  shows "\<exists>mi. jmin (Fin 100) (jmul (jdiv (Fin (real n)) (Fin (real len))) (Fin 75)) = Fin mi
           \<and> 0 \<le> mi \<and> mi \<le> 100"
proof -
  from assms have "0 < real len" "0 \<le> real n" "real n \<le> real len" by simp_all
  from ratio_range [OF this, of 75]
  have e: "jmul (jdiv (Fin (real n)) (Fin (real len))) (Fin 75) = Fin (real n / real len * 75)"
    and lo: "0 \<le> real n / real len * 75" and hi: "real n / real len * 75 \<le> 75"
    by simp_all
  from lo have "0 \<le> min 100 (real n / real len * 75)" by simp
  moreover have "min 100 (real n / real len * 75) \<le> 100" by simp
  moreover have "jmin (Fin 100) (jmul (jdiv (Fin (real n)) (Fin (real len))) (Fin 75))
      = Fin (min 100 (real n / real len * 75))"
    unfolding e by simp
  ultimately show ?thesis by blast
qed

lemma market_result:
  assumes "(if side f = Buy then asks b else bids b) \<noteq> []"
  shows "simulate_market f b =
     (let levels = (if side f = Buy then asks b else bids b);
          fills = spec_fills (OrderForm.quantity f) levels;
          average = jdiv (Fin (spec_value fills levels)) (Fin (sum_list fills));
          best = Fin (price (hd levels))
      in Inr \<lparr>form = f,
           fillPercentage =
             jmul (jdiv (Fin (sum_list fills)) (Fin (OrderForm.quantity f))) (Fin 100),
           marketImpact =
             jmul (jdiv (Fin (real (length fills))) (Fin (real (length levels)))) (Fin 100),
           slippage =
             jmax (Fin 0)
               (if side f = Buy then jmul (jdiv (jsub average best) best) (Fin 100)
                else jmul (jdiv (jsub best average) best) (Fin 100)),
           timeToFill = Some ''Immediate'', active = True\<rparr>)"
  using first_level_nonempty [OF assms]
  by (simp add: simulate_market_def market_loop_fills Let_def del: jsnum_ops)

lemma limit_result:
  "simulate_limit f b =
     (let p = (case OrderForm.price f of None \<Rightarrow> 0 | Some p \<Rightarrow> p);
          levels = (if side f = Buy then asks b else bids b);
          fillable = (if side f = Buy then filter (\<lambda>l. price l \<le> p) levels
                      else filter (\<lambda>l. p \<le> price l) levels);
          fills = spec_fills (OrderForm.quantity f) fillable;
          filled = sum_list fills;
          fp = jmul (jdiv (Fin filled) (Fin (OrderForm.quantity f))) (Fin 100);
          resting = (if side f = Buy then bids b else asks b);
          average = jdiv (Fin (spec_value fills fillable))
                         (Fin (if filled \<noteq> 0 then filled else 1))
      in Inr \<lparr>form = f, fillPercentage = fp,
           marketImpact =
             jmin (Fin 100)
               (if jlt fp (Fin 100)
                then jmul (jsub (Fin 1)
                       (jdiv (Fin (real (find_position (side f) p resting 0)))
                             (Fin (real (length resting))))) (Fin 50)
                else jmul (jdiv (Fin (real (length fillable))) (Fin (real (length levels))))
                          (Fin 75)),
           slippage =
             jmax (Fin 0)
               (if side f = Buy then jmul (jdiv (jsub average (Fin p)) (Fin p)) (Fin 100)
                else jmul (jdiv (jsub (Fin p) average) (Fin p)) (Fin 100)),
           timeToFill = Some (estimateTimeToFill (delay f) fp), active = True\<rparr>)"
  by (simp add: simulate_limit_def limit_loop_fills Let_def del: jsnum_ops)

text \<open>
  Apart from a market order that fills nothing or meets a first price of 0, the fill
  percentage and the market impact of a result lie between 0 and 100 and its slippage
  is a number at or above 0, for every order of positive quantity (and positive limit
  price) against levels of non-negative quantities.
\<close>

lemma simulate_percentages_in_range:
  assumes q: "0 < OrderForm.quantity f"
    and lim: "type f = Limit \<longrightarrow> (\<exists>p. OrderForm.price f = Some p \<and> 0 < p)"
    and nn: "\<forall>l \<in> set (bids b @ asks b). 0 \<le> quantity l"
    and mk: "type f = Market \<longrightarrow>
       sum_list (spec_fills (OrderForm.quantity f) (if side f = Buy then asks b else bids b)) \<noteq> 0
       \<and> price (hd (if side f = Buy then asks b else bids b)) \<noteq> 0"
  shows "\<exists>r fp mi sl. simulateOrder f b = Inr r \<and>
           fillPercentage r = Fin fp \<and> 0 \<le> fp \<and> fp \<le> 100 \<and>
           marketImpact r = Fin mi \<and> 0 \<le> mi \<and> mi \<le> 100 \<and>
           slippage r = Fin sl \<and> 0 \<le> sl"
proof (cases "bids b = [] \<or> asks b = []")
  case True
  then show ?thesis by (simp add: simulateOrder_def inactive_def)
next
  case False
  let ?levels = "if side f = Buy then asks b else bids b"
  let ?q = "OrderForm.quantity f"
  from False have ne: "?levels \<noteq> []" by simp
  have nnl: "\<forall>l \<in> set ?levels. 0 \<le> quantity l" using nn by simp
  show ?thesis
  proof (cases "type f")
    case Market
    let ?fs = "spec_fills ?q ?levels"
    from fills_sum [OF nnl] q have f: "0 \<le> sum_list ?fs" "sum_list ?fs \<le> ?q" by simp_all
    from ratio_range [OF q f, of 100]
    obtain fp where fp: "jmul (jdiv (Fin (sum_list ?fs)) (Fin ?q)) (Fin 100) = Fin fp"
      "0 \<le> fp" "fp \<le> 100" by simp
    have len: "0 < real (length ?levels)" "0 \<le> real (length ?fs)"
      "real (length ?fs) \<le> real (length ?levels)"
      using ne fills_length [of ?q ?levels] by simp_all
    from ratio_range [OF len, of 100]
    obtain mi where mi: "jmul (jdiv (Fin (real (length ?fs))) (Fin (real (length ?levels))))
        (Fin 100) = Fin mi" "0 \<le> mi" "mi \<le> 100" by simp
    from mk Market have d: "sum_list ?fs \<noteq> 0" and p: "price (hd ?levels) \<noteq> 0" by simp_all
    from slip_nonneg [OF d p, of "spec_value ?fs ?levels"]
    obtain sl where sl: "jmax (Fin 0)
        (if side f = Buy
         then jmul (jdiv (jsub (jdiv (Fin (spec_value ?fs ?levels)) (Fin (sum_list ?fs)))
                (Fin (price (hd ?levels)))) (Fin (price (hd ?levels)))) (Fin 100)
         else jmul (jdiv (jsub (Fin (price (hd ?levels)))
                (jdiv (Fin (spec_value ?fs ?levels)) (Fin (sum_list ?fs))))
                (Fin (price (hd ?levels)))) (Fin 100)) = Fin sl" "0 \<le> sl"
      by (cases "side f = Buy") auto
    have "simulateOrder f b = simulate_market f b"
      using False Market by (simp add: simulateOrder_def)
    with fp mi sl show ?thesis
      unfolding market_result [OF ne] Let_def by simp
  next
    case Limit
    with lim obtain p where pr: "OrderForm.price f = Some p" and p: "0 < p" by blast
    let ?fl = "if side f = Buy then filter (\<lambda>l. price l \<le> p) ?levels
               else filter (\<lambda>l. p \<le> price l) ?levels"
    let ?fs = "spec_fills ?q ?fl"
    let ?rest = "if side f = Buy then bids b else asks b"
    have nnf: "\<forall>l \<in> set ?fl. 0 \<le> quantity l" using nnl by simp
    from fills_sum [OF nnf] q have f: "0 \<le> sum_list ?fs" "sum_list ?fs \<le> ?q" by simp_all
    from ratio_range [OF q f, of 100]
    obtain fp where fp: "jmul (jdiv (Fin (sum_list ?fs)) (Fin ?q)) (Fin 100) = Fin fp"
      "0 \<le> fp" "fp \<le> 100" by simp
    from False have "?rest \<noteq> []" by simp
    from find_position_less [OF this]
    have pos: "find_position (side f) p ?rest 0 < length ?rest" .
    have cnt: "length ?fl \<le> length ?levels" "0 < length ?levels"
      using ne by simp_all
    from position_impact_range [OF pos] count_impact_range [OF cnt]
    obtain mi where mi: "jmin (Fin 100)
        (if jlt (Fin fp) (Fin 100)
         then jmul (jsub (Fin 1) (jdiv (Fin (real (find_position (side f) p ?rest 0)))
                (Fin (real (length ?rest))))) (Fin 50)
         else jmul (jdiv (Fin (real (length ?fl))) (Fin (real (length ?levels)))) (Fin 75))
        = Fin mi" "0 \<le> mi" "mi \<le> 100"
      by (cases "jlt (Fin fp) (Fin 100)") (auto simp del: jsnum_ops)
    have d: "(if sum_list ?fs \<noteq> 0 then sum_list ?fs else 1) \<noteq> 0" by simp
    from p have p0: "p \<noteq> 0" by simp
    from slip_nonneg [OF d p0, of "spec_value ?fs ?fl"]
    obtain sl where sl: "jmax (Fin 0)
        (if side f = Buy
         then jmul (jdiv (jsub (jdiv (Fin (spec_value ?fs ?fl))
                (Fin (if sum_list ?fs \<noteq> 0 then sum_list ?fs else 1))) (Fin p)) (Fin p)) (Fin 100)
         else jmul (jdiv (jsub (Fin p) (jdiv (Fin (spec_value ?fs ?fl))
                (Fin (if sum_list ?fs \<noteq> 0 then sum_list ?fs else 1)))) (Fin p)) (Fin 100))
        = Fin sl" "0 \<le> sl"
      by (cases "side f = Buy") (auto simp del: jsnum_ops)
    have res: "simulate_limit f b =
        Inr \<lparr>form = f, fillPercentage = Fin fp, marketImpact = Fin mi, slippage = Fin sl,
             timeToFill = Some (estimateTimeToFill (delay f) (Fin fp)), active = True\<rparr>"
      unfolding limit_result Let_def
      by (simp only: pr option.case fp(1) mi(1) sl(1))
    have "simulateOrder f b = simulate_limit f b"
      using False Limit by (simp add: simulateOrder_def)
    with res fp mi sl show ?thesis
      by simp
  qed
qed

lemma simulate_percentages_in_range_example:
  "\<exists>r fp mi sl.
     simulateOrder (order Limit Buy (Some 99) 1) (book [lvl 98 1, lvl 97 1] [lvl 100 1]) = Inr r \<and>
     fillPercentage r = Fin fp \<and> 0 \<le> fp \<and> fp \<le> 100 \<and>
     marketImpact r = Fin mi \<and> 0 \<le> mi \<and> mi \<le> 100 \<and> slippage r = Fin sl \<and> 0 \<le> sl"
  using simulate_percentages_in_range
          [of "order Limit Buy (Some 99) 1" "book [lvl 98 1, lvl 97 1] [lvl 100 1]"]
  by (simp add: order_def book_def lvl_def)

lemma limit_order_slippage_zero_example:
  "\<exists>r. simulateOrder (order Limit Sell (Some 99) 1) (book [lvl 100 2] [lvl 101 1]) = Inr r \<and>
       slippage r = Fin 0"
  using limit_order_slippage_zero
          [of "order Limit Sell (Some 99) 1" 99 "book [lvl 100 2] [lvl 101 1]"]
  by (simp add: order_def book_def lvl_def)

section \<open>Properties of the aggregator\<close>

lemma quantity_upd_total:
  "(\<lambda>y. quantity ((h(r := (h r)\<lparr>total := v\<rparr>)) y)) = (\<lambda>y. quantity (h y))"
  by (rule ext) simp

lemma set_totals_heap:
  "fst (set_totals rs (h, t)) =
     (\<lambda>x. case written_total (\<lambda>r. quantity (h r)) rs t x of
             None \<Rightarrow> h x
           | Some v \<Rightarrow> (h x)\<lparr>total := Some v\<rparr>)"
proof (induction rs arbitrary: h t)
  case Nil
  show ?case by simp
next
  case (Cons r rs)
  define t' where "t' = t + quantity (h r)"
  define h' where "h' = h(r := (h r)\<lparr>total := Some t'\<rparr>)"
  have q: "(\<lambda>y. quantity (h' y)) = (\<lambda>y. quantity (h y))"
    unfolding h'_def by (rule quantity_upd_total)
  have step: "set_totals (r # rs) (h, t) = set_totals rs (h', t')"
    by (simp add: h'_def t'_def Let_def)
  have "fst (set_totals rs (h', t')) =
      (\<lambda>x. case written_total (\<lambda>r. quantity (h r)) rs t' x of
              None \<Rightarrow> h' x | Some v \<Rightarrow> (h' x)\<lparr>total := Some v\<rparr>)"
    using Cons.IH [of h' t'] by (simp only: q)
  also have "\<dots> = (\<lambda>x. case written_total (\<lambda>r. quantity (h r)) (r # rs) t x of
              None \<Rightarrow> h x | Some v \<Rightarrow> (h x)\<lparr>total := Some v\<rparr>)"
    by (rule ext) (simp add: h'_def t'_def split: option.splits)
  finally show ?case by (simp only: step)
qed

lemma set_totals_sum:
  "snd (set_totals rs (h, t)) = t + sum_list (map (\<lambda>r. quantity (h r)) rs)"
proof (induction rs arbitrary: h t)
  case Nil
  show ?case by simp
next
  case (Cons r rs)
  define t' where "t' = t + quantity (h r)"
  define h' where "h' = h(r := (h r)\<lparr>total := Some t'\<rparr>)"
  have q: "(\<lambda>y. quantity (h' y)) = (\<lambda>y. quantity (h y))"
    unfolding h'_def by (rule quantity_upd_total)
  have step: "set_totals (r # rs) (h, t) = set_totals rs (h', t')"
    by (simp add: h'_def t'_def Let_def)
  have "snd (set_totals rs (h', t')) = t' + sum_list (map (\<lambda>r. quantity (h r)) rs)"
    using Cons.IH [of h' t'] by (simp only: q)
  then show ?case unfolding step by (simp add: t'_def)
qed

lemma set_percentages_heap:
  "set_percentages m rs h =
     (\<lambda>x. if x \<in> set rs then (h x)\<lparr>percentage := Some (percentage_of m (total (h x)))\<rparr>
          else h x)"
proof (induction rs arbitrary: h)
  case Nil
  show ?case by simp
next
  case (Cons r rs)
  show ?case
    by (rule ext) (simp add: Cons.IH)
qed

lemma written_total_None: "written_total q rs t x = None \<longleftrightarrow> x \<notin> set rs"
proof (induction rs arbitrary: t)
  case Nil
  show ?case by simp
next
  case (Cons r rs)
  show ?case
    using Cons.IH [of "t + q r"]
    by (cases "written_total q rs (t + q r) x") auto
qed




lemma process_annotate:
  "processOrderBookData h b =
     (annotate (take 15 (sort_bids h (bids b))) (take 15 (sort_asks h (asks b))) h,
      \<lparr>bids = take 15 (sort_bids h (bids b)), asks = take 15 (sort_asks h (asks b)),
       timestamp = timestamp b\<rparr>)"
  by (simp add: processOrderBookData_def annotate_def Let_def split: prod.splits)

lemma annotate_heap:
  fixes h :: heap and bs as :: "ref list"
  defines "q \<equiv> \<lambda>r. quantity (h r)"
  defines "m \<equiv> max (sum_list (map q bs)) (sum_list (map q as))"
  shows "annotate bs as h =
     (\<lambda>x. (h x)\<lparr>total := final_total q bs as (total (h x)) x,
                 percentage :=
                   (if x \<in> set bs \<union> set as
                    then Some (percentage_of m (final_total q bs as (total (h x)) x))
                    else percentage (h x))\<rparr>)"
proof -
  define h1 where "h1 = fst (set_totals bs (h, 0))"
  define h2 where "h2 = fst (set_totals as (h1, 0))"
  have h1: "h1 = (\<lambda>x. case written_total q bs 0 x of
                        None \<Rightarrow> h x | Some v \<Rightarrow> (h x)\<lparr>total := Some v\<rparr>)"
    unfolding h1_def q_def by (rule set_totals_heap)
  have q1: "(\<lambda>r. quantity (h1 r)) = q"
    by (rule ext) (simp add: h1 q_def split: option.splits)
  have h2: "h2 = (\<lambda>x. case written_total q as 0 x of
                        None \<Rightarrow> h1 x | Some v \<Rightarrow> (h1 x)\<lparr>total := Some v\<rparr>)"
    unfolding h2_def using set_totals_heap [of as h1 0] by (simp only: q1)
  have bt: "snd (set_totals bs (h, 0)) = sum_list (map q bs)"
    by (simp add: set_totals_sum q_def)
  have at: "snd (set_totals as (h1, 0)) = sum_list (map q as)"
    using set_totals_sum [of as h1 0] by (simp add: q1)
  have ann: "annotate bs as h = set_percentages m as (set_percentages m bs h2)"
    by (simp add: annotate_def Let_def split_def bt at m_def
        h1_def [symmetric] h2_def [symmetric])
  have h2x: "h2 x = (h x)\<lparr>total := final_total q bs as (total (h x)) x\<rparr>" for x
    by (simp add: h2 h1 final_total_def split: option.splits)
  show ?thesis
    unfolding ann set_percentages_heap
    by (rule ext) (simp add: h2x)
qed

lemma final_total_idem:
  "final_total q bs as (final_total q bs as old x) x = final_total q bs as old x"
  by (simp add: final_total_def split: option.splits)

lemma final_total_outside:
  "x \<notin> set bs \<union> set as \<Longrightarrow> final_total q bs as old x = old"
  using written_total_None [of q bs 0 x] written_total_None [of q as 0 x]
  by (simp add: final_total_def)

lemma annotate_price: "price (annotate bs as h x) = price (h x)"
  by (simp add: annotate_heap)

lemma annotate_quantity: "quantity (annotate bs as h x) = quantity (h x)"
  by (simp add: annotate_heap)

lemma annotate_idem: "annotate bs as (annotate bs as h) = annotate bs as h"
proof -
  have q: "(\<lambda>r. quantity (annotate bs as h r)) = (\<lambda>r. quantity (h r))"
    by (rule ext) (rule annotate_quantity)
  have "annotate bs as (annotate bs as h) x = annotate bs as h x" for x
    unfolding annotate_heap [of bs as "annotate bs as h"] q
    by (simp add: annotate_heap [of bs as h] final_total_idem)
  then show ?thesis by (rule ext)
qed

lemma sort_take_fixed: "sort_key f (take n (sort_key f xs)) = take n (sort_key f xs)"
proof -
  have "sorted (take n (map f (sort_key f xs)))"
    by (rule sorted_wrt_take) simp
  then have "sorted (map f (take n (sort_key f xs)))"
    by (simp add: take_map)
  then show ?thesis by (rule sort_key_id_if_sorted)
qed

text \<open>
  C9. Aggregating the output of the aggregator changes nothing: the book returned and
  the heap are those of the first run. The output of the first run has at most 15
  levels on each side, sorted, so the claim holds for every input, whatever its size.
\<close>

theorem aggregate_idempotent:
  "processOrderBookData (fst (processOrderBookData h b)) (snd (processOrderBookData h b)) =
     processOrderBookData h b"
proof -
  let ?bs = "take 15 (sort_bids h (bids b))"
  let ?as = "take 15 (sort_asks h (asks b))"
  let ?h = "annotate ?bs ?as h"
  have bs: "sort_bids ?h ?bs = ?bs"
    by (simp add: sort_bids_def annotate_price sort_take_fixed)
  have as: "sort_asks ?h ?as = ?as"
    by (simp add: sort_asks_def annotate_price sort_take_fixed)
  show ?thesis
    by (simp add: process_annotate [of h b] process_annotate [of ?h] bs as annotate_idem)
qed

lemma retained_subset: "set (take n (sort_key f xs)) \<subseteq> set xs"
  using set_take_subset [of n "sort_key f xs"] by simp


text \<open>
  What the function leaves as it was and what it writes, on the levels: the lists
  returned hold references of the input, the price and the quantity of every level and
  every field of a level that is not retained stay, and every retained level is given
  a total and a percentage.
\<close>

lemma process_frame:
  assumes "processOrderBookData h b = (h', b')"
  shows "set (bids b') \<subseteq> set (bids b) \<and> set (asks b') \<subseteq> set (asks b) \<and>
         timestamp b' = timestamp b \<and>
         price (h' r) = price (h r) \<and> quantity (h' r) = quantity (h r) \<and>
         (r \<notin> set (bids b') \<union> set (asks b') \<longrightarrow> h' r = h r) \<and>
         (r \<in> set (bids b') \<union> set (asks b') \<longrightarrow>
            total (h' r) \<noteq> None \<and> percentage (h' r) \<noteq> None)"
proof -
  let ?bs = "take 15 (sort_bids h (bids b))"
  let ?as = "take 15 (sort_asks h (asks b))"
  from assms have h': "h' = annotate ?bs ?as h"
    and b': "b' = \<lparr>bids = ?bs, asks = ?as, timestamp = timestamp b\<rparr>"
    by (simp_all add: process_annotate)
  have sub: "set ?bs \<subseteq> set (bids b)" "set ?as \<subseteq> set (asks b)"
    by (simp_all add: sort_bids_def sort_asks_def retained_subset)
  have out: "r \<notin> set ?bs \<union> set ?as \<Longrightarrow> annotate ?bs ?as h r = h r"
    by (simp add: annotate_heap final_total_outside)
  have inn: "r \<in> set ?bs \<union> set ?as \<Longrightarrow>
      total (annotate ?bs ?as h r) \<noteq> None \<and> percentage (annotate ?bs ?as h r) \<noteq> None"
    using written_total_None [of "\<lambda>r. quantity (h r)" ?bs 0 r]
      written_total_None [of "\<lambda>r. quantity (h r)" ?as 0 r]
    by (auto simp: annotate_heap final_total_def split: option.splits)
  show ?thesis
    using sub out inn by (simp add: h' b' annotate_price annotate_quantity)
qed

lemma store_refines:
  assumes "asks_at raw < fresh s"
  shows "processOrderBookData_store s raw =
     (let (h', b') = processOrderBookData (objects s) (read_book s raw)
      in (\<lparr>arrays = (arrays s)(fresh s := sort_bids (objects s) (arrays s (bids_at raw)),
                               Suc (fresh s) := bids b',
                               Suc (Suc (fresh s)) :=
                                 sort_asks (objects s) (arrays s (asks_at raw)),
                               Suc (Suc (Suc (fresh s))) := asks b'),
           objects = h', fresh = Suc (Suc (Suc (Suc (fresh s))))\<rparr>,
          \<lparr>bids_at = Suc (fresh s), asks_at = Suc (Suc (Suc (fresh s))),
           timestamp_at = timestamp_at raw\<rparr>))"
  using assms
  by (cases s)
     (simp add: processOrderBookData_store_def processOrderBookData_def read_book_def
      spread_def sort_array_def slice_array_def Let_def split_def)

text \<open>
  C8, as amended. The aggregator leaves every array that exists before the call as it
  was, the two arrays of the input book among them (it sorts and slices copies, and the
  arrays it returns are new), keeps the timestamp, and leaves the price and the quantity
  of every level, and every field of a level that it does not retain, as they were; to
  every level it retains it writes a total and a percentage, in the level object of the
  input itself, which the returned arrays hold. The claim as stated says that no field
  of an input level is modified.
\<close>

theorem aggregate_frame:
  assumes wf: "bids_at raw < fresh s" "asks_at raw < fresh s"
    and run: "processOrderBookData_store s raw = (s', out)"
  shows "(\<forall>a. a < fresh s \<longrightarrow> arrays s' a = arrays s a) \<and>
         fresh s \<le> bids_at out \<and> fresh s \<le> asks_at out \<and>
         timestamp_at out = timestamp_at raw \<and>
         set (arrays s' (bids_at out)) \<subseteq> set (arrays s (bids_at raw)) \<and>
         set (arrays s' (asks_at out)) \<subseteq> set (arrays s (asks_at raw)) \<and>
         price (objects s' r) = price (objects s r) \<and>
         quantity (objects s' r) = quantity (objects s r) \<and>
         (r \<notin> set (arrays s' (bids_at out)) \<union> set (arrays s' (asks_at out)) \<longrightarrow>
            objects s' r = objects s r) \<and>
         (r \<in> set (arrays s' (bids_at out)) \<union> set (arrays s' (asks_at out)) \<longrightarrow>
            total (objects s' r) \<noteq> None \<and> percentage (objects s' r) \<noteq> None)"
proof -
  obtain h' b' where p: "processOrderBookData (objects s) (read_book s raw) = (h', b')"
    by (cases "processOrderBookData (objects s) (read_book s raw)")
  from run have s': "s' = \<lparr>arrays = (arrays s)(fresh s := sort_bids (objects s) (arrays s (bids_at raw)),
                               Suc (fresh s) := bids b',
                               Suc (Suc (fresh s)) :=
                                 sort_asks (objects s) (arrays s (asks_at raw)),
                               Suc (Suc (Suc (fresh s))) := asks b'),
           objects = h', fresh = Suc (Suc (Suc (Suc (fresh s))))\<rparr>"
    and out: "out = \<lparr>bids_at = Suc (fresh s), asks_at = Suc (Suc (Suc (fresh s))),
           timestamp_at = timestamp_at raw\<rparr>"
    by (simp_all add: store_refines [OF wf(2)] p)
  have arr: "arrays s' (bids_at out) = bids b'" "arrays s' (asks_at out) = asks b'"
    "objects s' = h'"
    by (simp_all add: s' out)
  have old: "\<forall>a. a < fresh s \<longrightarrow> arrays s' a = arrays s a"
    by (simp add: s')
  from process_frame [OF p, of r] old show ?thesis
    by (simp add: arr read_book_def) (simp add: out)
qed

theorem aggregate_frame_witness:
  "arrays (fst (processOrderBookData_store sample_store sample_book_object)) 0 = [1, 0] \<and>
   arrays (fst (processOrderBookData_store sample_store sample_book_object))
     (bids_at (snd (processOrderBookData_store sample_store sample_book_object))) = [0, 1] \<and>
   total (objects (fst (processOrderBookData_store sample_store sample_book_object)) 0) \<noteq> None \<and>
   objects (fst (processOrderBookData_store sample_store sample_book_object)) 3 = sample_heap 3 \<and>
   quantity (objects (fst (processOrderBookData_store sample_store sample_book_object)) 0) = 2"
proof -
  let ?P = "processOrderBookData_store sample_store sample_book_object"
  have wf: "bids_at sample_book_object < fresh sample_store"
    "asks_at sample_book_object < fresh sample_store"
    by (simp_all add: sample_store_def sample_book_object_def)
  have p: "?P = (fst ?P, snd ?P)" by simp
  have bs: "arrays (fst ?P) (bids_at (snd ?P)) = [0, 1]"
    and as: "arrays (fst ?P) (asks_at (snd ?P)) = [2]"
    by (simp_all add: processOrderBookData_store_def spread_def sort_array_def
        slice_array_def split_def sort_bids_def sort_asks_def sample_store_def
        sample_book_object_def sample_heap_def lvl_def Let_def)
  have lt: "0 < fresh sample_store"
    by (simp add: sample_store_def)
  have in0: "0 \<in> set (arrays (fst ?P) (bids_at (snd ?P))) \<union>
                 set (arrays (fst ?P) (asks_at (snd ?P)))"
    and out3: "3 \<notin> set (arrays (fst ?P) (bids_at (snd ?P))) \<union>
                   set (arrays (fst ?P) (asks_at (snd ?P)))"
    by (simp_all add: bs as)
  from aggregate_frame [OF wf p, of 0] lt in0
  have a: "arrays (fst ?P) 0 = arrays sample_store 0"
    and b: "total (objects (fst ?P) 0) \<noteq> None"
    and c: "quantity (objects (fst ?P) 0) = quantity (objects sample_store 0)"
    by blast+
  from aggregate_frame [OF wf p, of 3] out3
  have d: "objects (fst ?P) 3 = objects sample_store 3"
    by blast
  have e: "arrays sample_store 0 = [1, 0]" "objects sample_store 3 = sample_heap 3"
    "quantity (objects sample_store 0) = 2"
    by (simp_all add: sample_store_def sample_heap_def lvl_def)
  from a b c d bs show ?thesis
    by (simp only: e) simp
qed

text \<open>
  The bid at 99 of the sample heap has no total and no percentage before the call, and
  has both after it.
\<close>

theorem aggregate_writes_input_levels:
  "sample_heap 0 = \<lparr>price = 99, quantity = 2, total = None, percentage = None\<rparr> \<and>
   fst (processOrderBookData sample_heap (book [1, 0] [2])) 0 =
     \<lparr>price = 99, quantity = 2, total = Some 2, percentage = Some (Fin (200 / 3))\<rparr>"
  by (simp add: processOrderBookData_def sort_bids_def sort_asks_def percentage_of_def
      book_def sample_heap_def lvl_def Let_def)






section \<open>Properties of the message parsers\<close>



























text \<open>
  C7. Each parser is meant to take the timestamp of the book from the timestamp field
  of the message when it has one. The OKX parser stamps the wall-clock time on a
  message that carries \<open>ts\<close>, whatever \<open>JSON.parse\<close>, \<open>parseFloat\<close> and the clock are;
  the parsers of Bybit and Deribit take the field of the message.
\<close>

theorem okx_ignores_message_timestamp:
  "parseMessage OKX jp pf now okx_with_ts =
     Inr (JObj [(''bids'', JArr []), (''asks'', JArr []), (''timestamp'', JNum (Fin now))])"
  by (simp add: parseMessage_def parseMessage_OKX_def okx_with_ts_def and_then_def
      catch_null_def)

lemma bybit_deribit_take_message_timestamp:
  "parseMessage Bybit jp pf now bybit_with_ts =
     Inr (JObj [(''bids'', JArr []), (''asks'', JArr []),
                (''timestamp'', JNum (Fin 1597026383085))]) \<and>
   parseMessage Deribit jp pf now deribit_with_ts =
     Inr (JObj [(''bids'', JArr []), (''asks'', JArr []),
                (''timestamp'', JNum (Fin 1597026383085))])"
  by (simp add: parseMessage_def parseMessage_Bybit_def parseMessage_Deribit_def
      bybit_with_ts_def deribit_with_ts_def and_then_def catch_null_def)

end
